theory Spec2Isabelle
  imports Main "HOL-Library.AList"
begin

section \<open>Strokes and translations (translation.py)\<close>

text \<open>
  A \<open>Stroke\<close> is an external collaborator of which the translator reads three attributes:
  its RTFCRE text, the list of steno keys pressed, and the correction flag.
\<close>

record stroke =
  rtfcre :: string
  steno_keys :: "string list"
  is_correction :: bool

text \<open>
  \<open>Translation\<close> subclasses \<open>list\<close>: the object itself is the list of strokes
  (\<open>self.strokes = self\<close>), so \<open>len(t)\<close> is the number of strokes. The attributes
  \<open>rtfcre\<close>, \<open>english\<close> and \<open>replaced\<close> are fields. The formatter's annotations
  (\<open>formatting\<close>, \<open>is_retrospective_command\<close>) are not read by the functions
  modelled here and are left out.
\<close>

datatype translation =
  Translation (strokes: "stroke list") (t_rtfcre: "string list")
              (english: "string option") (replaced: "translation list")

text \<open>\<open>Translation.__init__(outline, translation)\<close>.\<close>

definition mk_translation :: "stroke list \<Rightarrow> string option \<Rightarrow> translation" where
  "mk_translation outline tr = Translation outline (map rtfcre outline) tr []"

text \<open>\<open>len(t)\<close> for a translation.\<close>

definition t_len :: "translation \<Rightarrow> nat" where
  "t_len t = length (strokes t)"

section \<open>The translator state (class \<open>_State\<close>)\<close>

text \<open>The field \<open>translations\<close> is named \<open>s_translations\<close> here.\<close>

record translator_state =
  s_translations :: "translation list"
  tail :: "translation option"

text \<open>\<open>_State.__init__\<close>.\<close>

definition init_state :: translator_state where
  "init_state = \<lparr>s_translations = [], tail = None\<rparr>"

text \<open>
  Python's slice \<open>xs[:stop]\<close> for an integer \<open>stop\<close>: a negative bound counts from the
  end, and the bound is clamped to the list.
\<close>

definition slice_to :: "'a list \<Rightarrow> int \<Rightarrow> 'a list" where
  "slice_to xs stop =
     (if stop < 0 then take (nat (int (length xs) + stop)) xs else take (nat stop) xs)"

text \<open>Python's slice \<open>xs[start:]\<close>.\<close>

definition slice_from :: "'a list \<Rightarrow> int \<Rightarrow> 'a list" where
  "slice_from xs start =
     (if start < 0 then drop (nat (int (length xs) + start)) xs else drop (nat start) xs)"

text \<open>
  \<open>_State.prev(count=None)\<close>. The local \<open>prev\<close> is \<open>translations[:-count]\<close> when a count
  is given, the whole list otherwise.
\<close>

definition prev_view :: "translator_state \<Rightarrow> int option \<Rightarrow> translation list" where
  "prev_view s count =
     (case count of Some c \<Rightarrow> slice_to (s_translations s) (- c) | None \<Rightarrow> s_translations s)"

definition prev :: "translator_state \<Rightarrow> int option \<Rightarrow> translation list option" where
  "prev s count =
     (let p = prev_view s count in
      if p \<noteq> [] then Some p
      else (case tail s of Some t \<Rightarrow> Some [t] | None \<Rightarrow> None))"

text \<open>
  The loop of \<open>restrict_size\<close> over \<open>reversed(self.translations)\<close>: it returns
  \<open>translation_count\<close>. The arguments are the bound \<open>n\<close>, the records still to visit
  (newest first), \<open>stroke_count\<close> and \<open>translation_count\<close>.
\<close>

fun restrict_loop :: "int \<Rightarrow> translation list \<Rightarrow> int \<Rightarrow> nat \<Rightarrow> nat" where
  "restrict_loop n [] sc tc = tc"
| "restrict_loop n (t # ts) sc tc =
     (let sc' = sc + int (t_len t); tc' = tc + 1 in
      if sc' \<ge> n then tc' else restrict_loop n ts sc' tc')"

definition restrict_size :: "int \<Rightarrow> translator_state \<Rightarrow> translator_state" where
  "restrict_size n s =
     (let translation_count = restrict_loop n (rev (s_translations s)) 0 0;
          translation_index = length (s_translations s) - translation_count;
          tl' = (if translation_index \<noteq> 0
                 then Some (s_translations s ! (translation_index - 1)) else tail s)
      in \<lparr>s_translations = drop translation_index (s_translations s), tail = tl'\<rparr>)"

section \<open>Errors\<close>

text \<open>The exceptions the modelled code can raise.\<close>

datatype error = AssertionError | IndexError | KeyError

section \<open>Single dictionaries (class \<open>StenoDictionary\<close>)\<close>

text \<open>A dictionary key is a tuple of RTFCRE strings.\<close>

type_synonym outline = "string list"

text \<open>
  Modelled from the spec: \<open>ReverseStenoDict\<close> (module \<open>plover.dictionary.base\<close>, not among
  the sources) is "an index from translation text to the set of stroke-tuples that produce
  it". It is a dict from a translation to the list of its keys; \<open>append_key\<close> adds a key
  under a translation, \<open>remove_key\<close> takes one out and drops a translation left without
  keys, \<open>match_forward\<close> rebuilds the index from a forward dict.
\<close>

type_synonym reverse_dict = "string \<rightharpoonup> outline list"

definition append_key :: "reverse_dict \<Rightarrow> string \<Rightarrow> outline \<Rightarrow> reverse_dict" where
  "append_key r v k = r(v \<mapsto> (case r v of None \<Rightarrow> [k] | Some ks \<Rightarrow> ks @ [k]))"

definition remove_key :: "reverse_dict \<Rightarrow> string \<Rightarrow> outline \<Rightarrow> reverse_dict" where
  "remove_key r v k =
     (case r v of None \<Rightarrow> r
      | Some ks \<Rightarrow> (let ks' = remove1 k ks in if ks' = [] then r(v := None) else r(v \<mapsto> ks')))"

definition match_forward :: "(outline \<times> string) list \<Rightarrow> reverse_dict" where
  "match_forward al = fold (\<lambda>(k, v) r. append_key r v k) al Map.empty"

text \<open>
  The dictionary object. It subclasses \<open>dict\<close>: its own contents are the field \<open>entries\<close>,
  an insertion-ordered list of (key, translation) pairs with one pair per key. The set of
  longest-key callbacks is represented by \<open>lk_calls\<close>, the values the callbacks have been
  called with, oldest first. \<open>timestamp\<close> and \<open>path\<close> play no part here.
\<close>

record steno_dictionary =
  entries :: "(outline \<times> string) list"
  reverse :: reverse_dict
  longest_key_length :: nat
  lk_calls :: "nat list"
  readonly :: bool
  enabled :: bool

text \<open>\<open>StenoDictionary.__init__\<close>.\<close>

definition new_dictionary :: steno_dictionary where
  "new_dictionary = \<lparr>entries = [], reverse = Map.empty, longest_key_length = 0,
                      lk_calls = [], readonly = False, enabled = True\<rparr>"

text \<open>\<open>key in d\<close> and \<open>d[key]\<close> (read only where the key is present).\<close>

definition contains :: "steno_dictionary \<Rightarrow> outline \<Rightarrow> bool" where
  "contains d k = (map_of (entries d) k \<noteq> None)"

definition getitem :: "steno_dictionary \<Rightarrow> outline \<Rightarrow> string option" where
  "getitem d k = map_of (entries d) k"

text \<open>The property \<open>longest_key\<close> and the setter of \<open>_longest_key\<close>.\<close>

definition longest_key :: "steno_dictionary \<Rightarrow> nat" where
  "longest_key d = longest_key_length d"

definition set_longest_key :: "steno_dictionary \<Rightarrow> nat \<Rightarrow> steno_dictionary" where
  "set_longest_key d lk =
     (if lk = longest_key_length d then d
      else d\<lparr>longest_key_length := lk, lk_calls := lk_calls d @ [lk]\<rparr>)"

text \<open>Python's \<open>max(xs, default=d)\<close> and \<open>max(xs)\<close> on a non-empty sequence.\<close>

fun py_max_default :: "nat list \<Rightarrow> nat \<Rightarrow> nat" where
  "py_max_default [] d = d"
| "py_max_default (x # xs) d = fold max xs x"

definition calculate_longest_key :: "steno_dictionary \<Rightarrow> steno_dictionary" where
  "calculate_longest_key d =
     set_longest_key d (py_max_default (map (\<lambda>(k, v). length k) (entries d)) 0)"

text \<open>\<open>clear\<close>, \<open>__setitem__\<close>, \<open>__delitem__\<close> and \<open>update\<close>.\<close>

definition clear :: "steno_dictionary \<Rightarrow> error + steno_dictionary" where
  "clear d = Inr (set_longest_key (d\<lparr>entries := [], reverse := Map.empty\<rparr>) 0)"

definition setitem :: "steno_dictionary \<Rightarrow> outline \<Rightarrow> string \<Rightarrow> error + steno_dictionary" where
  "setitem d key v =
     (if readonly d then Inl AssertionError
      else let d1 = (case map_of (entries d) key of
                       Some old \<Rightarrow> d\<lparr>reverse := remove_key (reverse d) old key\<rparr>
                     | None \<Rightarrow> set_longest_key d (max (longest_key_length d) (length key)))
           in Inr (d1\<lparr>entries := AList.update key v (entries d1),
                      reverse := append_key (reverse d1) v key\<rparr>))"

definition delitem :: "steno_dictionary \<Rightarrow> outline \<Rightarrow> error + steno_dictionary" where
  "delitem d key =
     (if readonly d then Inl AssertionError
      else (case map_of (entries d) key of
              None \<Rightarrow> Inl KeyError
            | Some v \<Rightarrow>
                (let d1 = d\<lparr>entries := AList.delete key (entries d),
                             reverse := remove_key (reverse d) v key\<rparr>
                 in Inr (if length key = longest_key d1 then calculate_longest_key d1 else d1))))"

text \<open>The loop of the slow path of \<open>update\<close>: one \<open>__setitem__\<close> per pair.\<close>

fun setitems :: "steno_dictionary \<Rightarrow> (outline \<times> string) list \<Rightarrow> error + steno_dictionary" where
  "setitems d [] = Inr d"
| "setitems d ((k, v) # kvs) =
     (case setitem d k v of Inl e \<Rightarrow> Inl e | Inr d' \<Rightarrow> setitems d' kvs)"

text \<open>\<open>dict(pairs)\<close>: later pairs overwrite earlier ones with the same key.\<close>

definition py_dict :: "(outline \<times> string) list \<Rightarrow> (outline \<times> string) list" where
  "py_dict kvs = fold (\<lambda>(k, v). AList.update k v) kvs []"

definition update :: "steno_dictionary \<Rightarrow> (outline \<times> string) list \<Rightarrow> error + steno_dictionary" where
  "update d kvs =
     (if readonly d then Inl AssertionError
      else if entries d = [] then
        (let d1 = d\<lparr>entries := py_dict kvs\<rparr>;
             d2 = d1\<lparr>reverse := match_forward (entries d1)\<rparr>
         in Inr (calculate_longest_key d2))
      else setitems d (py_dict kvs))"

text \<open>\<open>StenoDictionary.reverse_lookup\<close>.\<close>

definition reverse_lookup :: "steno_dictionary \<Rightarrow> string \<Rightarrow> outline list" where
  "reverse_lookup d v = (case reverse d v of Some ks \<Rightarrow> ks | None \<Rightarrow> [])"

section \<open>Dictionary collections (class \<open>StenoDictionaryCollection\<close>)\<close>

text \<open>
  \<open>dicts\<close> is in priority order, highest first. The set \<open>longest_key_callbacks\<close> is
  represented by \<open>c_calls\<close>, the values the callbacks have been called with, oldest first.
  The attribute \<open>longest_key\<close> of the collection is the field \<open>c_longest_key\<close>.
\<close>

record collection =
  dicts :: "steno_dictionary list"
  filters :: "(outline \<Rightarrow> string \<Rightarrow> bool) list"
  c_longest_key :: nat
  c_calls :: "nat list"

text \<open>
  \<open>_longest_key_listener\<close>, the callback that the collection registers with each child
  and also calls itself from \<open>set_dicts\<close>.
\<close>

definition longest_key_listener :: "collection \<Rightarrow> collection" where
  "longest_key_listener c =
     (let new_longest_key = (if dicts c \<noteq> [] then py_max_default (map longest_key (dicts c)) 0
                             else 0)
      in if new_longest_key \<noteq> c_longest_key c
         then c\<lparr>c_longest_key := new_longest_key, c_calls := c_calls c @ [new_longest_key]\<rparr>
         else c)"

text \<open>
  \<open>set_dicts\<close> and \<open>__init__\<close>. Unregistering the callback from the old children and
  registering it with the new ones does not change any modelled field.
\<close>

definition set_dicts :: "collection \<Rightarrow> steno_dictionary list \<Rightarrow> collection" where
  "set_dicts c ds = longest_key_listener (c\<lparr>dicts := ds\<rparr>)"

definition new_collection :: "steno_dictionary list \<Rightarrow> collection" where
  "new_collection ds = set_dicts \<lparr>dicts = [], filters = [], c_longest_key = 0, c_calls = []\<rparr> ds"

text \<open>\<open>lookup\<close> and \<open>raw_lookup\<close>: the loops over \<open>self.dicts\<close>.\<close>

fun lookup_in :: "(outline \<Rightarrow> string \<Rightarrow> bool) list \<Rightarrow> steno_dictionary list \<Rightarrow> outline
                  \<Rightarrow> string option" where
  "lookup_in fs [] key = None"
| "lookup_in fs (d # ds) key =
     (if enabled d \<and> contains d key then
        (case getitem d key of
           None \<Rightarrow> None
         | Some v \<Rightarrow> if list_ex (\<lambda>f. f key v) fs then None else Some v)
      else lookup_in fs ds key)"

definition lookup :: "collection \<Rightarrow> outline \<Rightarrow> string option" where
  "lookup c key = lookup_in (filters c) (dicts c) key"

fun raw_lookup_in :: "steno_dictionary list \<Rightarrow> outline \<Rightarrow> string option" where
  "raw_lookup_in [] key = None"
| "raw_lookup_in (d # ds) key =
     (if enabled d \<and> contains d key then getitem d key else raw_lookup_in ds key)"

definition raw_lookup :: "collection \<Rightarrow> outline \<Rightarrow> string option" where
  "raw_lookup c key = raw_lookup_in (dicts c) key"

text \<open>
  \<open>StenoDictionaryCollection.reverse_lookup\<close>: one round of the loop over
  \<open>reversed(self.dicts)\<close>, and the loop.
\<close>

definition reverse_step :: "string \<Rightarrow> steno_dictionary \<Rightarrow> outline set \<Rightarrow> outline set" where
  "reverse_step v d keys =
     (if enabled d then
        (let keys1 = (if keys \<noteq> {} then keys - {k \<in> keys. contains d k} else keys)
         in keys1 \<union> set (reverse_lookup d v))
      else keys)"

definition c_reverse_lookup :: "collection \<Rightarrow> string \<Rightarrow> outline set" where
  "c_reverse_lookup c v = fold (reverse_step v) (rev (dicts c)) {}"

section \<open>The system module (plover/system)\<close>

text \<open>
  The attributes that \<open>setup\<close> exports into the module and that the modelled code reads.
  An entry of \<open>ORTHOGRAPHY_RULES\<close> is a pair of a compiled pattern's \<open>match\<close> and a
  replacement template, used only as \<open>m = rx_match(input)\<close> followed by
  \<open>m.expand(replacement)\<close>: it is modelled as one function that gives the expansion when
  the pattern matches the input and \<open>None\<close> when it does not. \<open>ORTHOGRAPHY_WORDS\<close> maps
  a word to its rank. \<open>Stroke_rtfcre\<close> stands for \<open>Stroke(keys).rtfcre\<close>, the RTFCRE form
  of the stroke made of a list of keys (class \<open>Stroke\<close> is an external collaborator).
\<close>

record system =
  ORTHOGRAPHY_RULES :: "(string \<Rightarrow> string option) list"
  ORTHOGRAPHY_RULES_ALIASES :: "string \<rightharpoonup> string"
  ORTHOGRAPHY_WORDS :: "string \<rightharpoonup> nat"
  SUFFIX_KEYS :: "string list"
  PREFIX_KEYS :: "string list"
  Stroke_rtfcre :: "string list \<Rightarrow> string"

section \<open>Orthography (orthography.py)\<close>

text \<open>
  Names that start with an underscore in the source carry the prefix \<open>u_\<close> here.
  \<open>_add_candidates_from_rules\<close>: the loop over the rules, appending to \<open>candidates\<close>.
\<close>

fun rules_loop :: "(string \<Rightarrow> string option) list \<Rightarrow> string \<Rightarrow> string list \<Rightarrow> string list" where
  "rules_loop [] inp candidates = candidates"
| "rules_loop (rule # rules) inp candidates =
     (case rule inp of
        Some expansion \<Rightarrow> rules_loop rules inp (candidates @ [expansion])
      | None \<Rightarrow> rules_loop rules inp candidates)"

definition u_add_candidates_from_rules :: "system \<Rightarrow> string list \<Rightarrow> string \<Rightarrow> string \<Rightarrow> string list" where
  "u_add_candidates_from_rules sys candidates word suffix =
     rules_loop (ORTHOGRAPHY_RULES sys) (word @ '' ^ '' @ suffix) candidates"

text \<open>
  Python's \<open>min(xs, key=f)\<close> on a non-empty list: the first element whose key is the
  smallest. \<open>min_loop\<close> is the scan with the best element so far.
\<close>

fun min_loop :: "('a \<Rightarrow> nat) \<Rightarrow> 'a \<Rightarrow> 'a list \<Rightarrow> 'a" where
  "min_loop f best [] = best"
| "min_loop f best (x # xs) = min_loop f (if f x < f best then x else best) xs"

text \<open>
  The candidates of \<open>_add_suffix\<close>, and the function. The key of \<open>min\<close> is
  \<open>ORTHOGRAPHY_WORDS.__getitem__\<close>; it is applied to members of \<open>dict_candidates\<close> only,
  which are keys of the wordlist, so the \<open>KeyError\<close> of a missing word cannot arise
  (lemma \<open>dict_candidates_in_words\<close>).
\<close>

definition in_dict_f :: "system \<Rightarrow> string \<Rightarrow> bool" where
  "in_dict_f sys w = (ORTHOGRAPHY_WORDS sys w \<noteq> None)"

definition candidates_of :: "system \<Rightarrow> string \<Rightarrow> string \<Rightarrow> string list" where
  "candidates_of sys word suffix =
     (let simple = word @ suffix;
          c0 = (if in_dict_f sys simple then [simple] else []);
          c1 = u_add_candidates_from_rules sys c0 word suffix
      in case ORTHOGRAPHY_RULES_ALIASES sys suffix of
           Some alias \<Rightarrow> u_add_candidates_from_rules sys c1 word alias
         | None \<Rightarrow> c1)"

definition u_add_suffix :: "system \<Rightarrow> string \<Rightarrow> string \<Rightarrow> string" where
  "u_add_suffix sys word suffix =
     (let candidates = candidates_of sys word suffix in
      if candidates \<noteq> [] then
        (let dict_candidates = filter (in_dict_f sys) candidates in
         if dict_candidates \<noteq> []
         then min_loop (\<lambda>w. the (ORTHOGRAPHY_WORDS sys w)) (hd dict_candidates) (tl dict_candidates)
         else hd candidates)
      else word @ suffix)"

text \<open>\<open>str.partition(' ')\<close>: head, separator and rest, split at the first space.\<close>

fun partition_space :: "string \<Rightarrow> string \<times> string \<times> string" where
  "partition_space [] = ([], [], [])"
| "partition_space (c # cs) =
     (if c = CHR '' '' then ([], [c], cs)
      else (case partition_space cs of (h, sep, r) \<Rightarrow> (c # h, sep, r)))"

definition add_suffix :: "system \<Rightarrow> string \<Rightarrow> string \<Rightarrow> string" where
  "add_suffix sys word suffix =
     (case partition_space suffix of
        (suffix1, sep, rest) \<Rightarrow> u_add_suffix sys word suffix1 @ sep @ rest)"

section \<open>Escaping of translations (translation.py)\<close>

text \<open>The characters of the two patterns: backslash, line feed, carriage return, tab.\<close>

definition bs :: char where "bs = CHR 0x5C"
definition LF :: char where "LF = CHR 0x0A"
definition CR :: char where "CR = CHR 0x0D"
definition TAB :: char where "TAB = CHR 0x09"

definition is_nrt :: "char \<Rightarrow> bool" where
  "is_nrt c = (c = CHR ''n'' \<or> c = CHR ''r'' \<or> c = CHR ''t'')"

definition is_ctl :: "char \<Rightarrow> bool" where
  "is_ctl c = (c = LF \<or> c = CR \<or> c = TAB)"

text \<open>
  \<open>_ESCAPE_RX\<close> is \<open>(\\[nrt]|[\n\r\t])\<close>: a backslash followed by one of the letters n, r,
  t, or else one of the three control characters. \<open>escape_rx s\<close> is the text matched at
  the start of \<open>s\<close>, if any.
\<close>

fun escape_rx :: "string \<Rightarrow> string option" where
  "escape_rx (c # d # s) =
     (if c = bs \<and> is_nrt d then Some [c, d] else if is_ctl c then Some [c] else None)"
| "escape_rx [c] = (if is_ctl c then Some [c] else None)"
| "escape_rx [] = None"

definition ESCAPE_REPLACEMENTS :: "(string \<times> string) list" where
  "ESCAPE_REPLACEMENTS =
     [([LF], [bs, CHR ''n'']), ([CR], [bs, CHR ''r'']), ([TAB], [bs, CHR ''t'']),
      ([bs, CHR ''n''], [bs, bs, CHR ''n'']), ([bs, CHR ''r''], [bs, bs, CHR ''r'']),
      ([bs, CHR ''t''], [bs, bs, CHR ''t''])]"

text \<open>
  \<open>_UNESCAPE_RX\<close> is \<open>((?<!\\)|\\)\\([nrt])\<close>: either nothing, at a position not preceded
  by a backslash, or a backslash; then a backslash and one of the letters n, r, t. The
  alternatives are tried in this order. \<open>unescape_rx p s\<close> is the text matched at the start
  of \<open>s\<close> when \<open>p\<close> is the character before it in the subject string.
\<close>

fun unescape_rx :: "char option \<Rightarrow> string \<Rightarrow> string option" where
  "unescape_rx p (c # d # s) =
     (if p \<noteq> Some bs \<and> c = bs \<and> is_nrt d then Some [c, d]
      else (case s of
              e # s' \<Rightarrow> if c = bs \<and> d = bs \<and> is_nrt e then Some [c, d, e] else None
            | [] \<Rightarrow> None))"
| "unescape_rx p [c] = None"
| "unescape_rx p [] = None"

definition UNESCAPE_REPLACEMENTS :: "(string \<times> string) list" where
  "UNESCAPE_REPLACEMENTS =
     [([bs, bs, CHR ''n''], [bs, CHR ''n'']), ([bs, bs, CHR ''r''], [bs, CHR ''r'']),
      ([bs, bs, CHR ''t''], [bs, CHR ''t'']),
      ([bs, CHR ''n''], [LF]), ([bs, CHR ''r''], [CR]), ([bs, CHR ''t''], [TAB])]"

text \<open>
  \<open>rx.sub(lambda m: table[m.group(0)], s)\<close>: scan from the left; where the pattern
  matches, put the replacement and go on after the match, otherwise copy one character.
  Every text either pattern can match is a key of its table, so the \<open>KeyError\<close> of the
  table lookup cannot arise; \<open>replacement\<close> gives the matched text back for a missing key.
\<close>

definition replacement :: "(string \<times> string) list \<Rightarrow> string \<Rightarrow> string" where
  "replacement table g = (case map_of table g of Some r \<Rightarrow> r | None \<Rightarrow> g)"

function escape_sub :: "string \<Rightarrow> string" where
  "escape_sub [] = []"
| "escape_sub (c # s) =
     (case escape_rx (c # s) of
        Some g \<Rightarrow> replacement ESCAPE_REPLACEMENTS g @ escape_sub (drop (length g) (c # s))
      | None \<Rightarrow> c # escape_sub s)"
  by pat_completeness auto
termination
proof (relation "measure length")
  show "wf (measure length)" by simp
next
  fix c s g
  assume "escape_rx (c # s) = Some g"
  then have "g \<noteq> []" by (cases s) (auto split: if_splits)
  then show "(drop (length g) (c # s), c # s) \<in> measure length" by (cases g) auto
next
  fix c s
  show "(s, c # s) \<in> measure length" by simp
qed

definition escape_translation :: "string \<Rightarrow> string" where
  "escape_translation translation = escape_sub translation"

function unescape_sub :: "char option \<Rightarrow> string \<Rightarrow> string" where
  "unescape_sub p [] = []"
| "unescape_sub p (c # s) =
     (case unescape_rx p (c # s) of
        Some g \<Rightarrow> replacement UNESCAPE_REPLACEMENTS g
                  @ unescape_sub (Some (last g)) (drop (length g) (c # s))
      | None \<Rightarrow> c # unescape_sub (Some c) s)"
  by pat_completeness auto
termination
proof (relation "measure (\<lambda>(p, s). length s)")
  show "wf (measure (\<lambda>(p, s). length s))" by simp
next
  fix p c s g
  assume "unescape_rx p (c # s) = Some g"
  then have "g \<noteq> []" by (cases s) (auto split: if_splits list.splits)
  then show "((Some (last g), drop (length g) (c # s)), (p, c # s)) \<in> measure (\<lambda>(p, s). length s)"
    by (cases g) auto
next
  fix p c s
  show "((Some c, s), (p, c # s)) \<in> measure (\<lambda>(p, s). length s)" by simp
qed

definition unescape_translation :: "string \<Rightarrow> string" where
  "unescape_translation translation = unescape_sub None translation"

section \<open>The translator (class \<open>Translator\<close>)\<close>

text \<open>
  The set of listeners is the list \<open>listeners\<close> of their identities, in the order the set
  is iterated. \<open>calls\<close> records every call of a listener: which listener, and the arguments
  \<open>undo\<close>, \<open>do\<close> and \<open>prev\<close>, oldest call first. The attributes \<open>_state\<close>, \<open>_to_undo\<close>,
  \<open>_to_do\<close>, \<open>_undo_length\<close> and \<open>_dictionary\<close> are the fields \<open>tstate\<close>, \<open>to_undo\<close>,
  \<open>to_do\<close>, \<open>undo_length\<close> and \<open>dictionary\<close>.
\<close>

type_synonym listener_call =
  "nat \<times> translation list \<times> translation list \<times> translation list option"

record translator =
  undo_length :: nat
  dictionary :: collection
  listeners :: "nat list"
  tstate :: translator_state
  to_undo :: "translation list"
  to_do :: nat
  calls :: "listener_call list"

text \<open>\<open>Translator.__init__\<close>.\<close>

definition new_translator :: translator where
  "new_translator = \<lparr>undo_length = 0, dictionary = new_collection [], listeners = [],
                      tstate = init_state, to_undo = [], to_do = 0, calls = []\<rparr>"

text \<open>\<open>_output\<close> and \<open>_resize_translations\<close>.\<close>

definition u_output :: "translator \<Rightarrow> translation list \<Rightarrow> translation list
                        \<Rightarrow> translation list option \<Rightarrow> translator" where
  "u_output tr undo do prv = tr\<lparr>calls := calls tr @ map (\<lambda>l. (l, undo, do, prv)) (listeners tr)\<rparr>"

definition u_resize_translations :: "translator \<Rightarrow> translator" where
  "u_resize_translations tr =
     tr\<lparr>tstate := restrict_size (int (max (c_longest_key (dictionary tr)) (undo_length tr)))
                                 (tstate tr)\<rparr>"

text \<open>\<open>flush(extra_translations=None)\<close>.\<close>

definition flush :: "translator \<Rightarrow> translation list option \<Rightarrow> translator" where
  "flush tr extra_translations =
     (let (prv, do0) =
            (if to_do tr \<noteq> 0
             then (prev (tstate tr) (Some (int (to_do tr))),
                   slice_from (s_translations (tstate tr)) (- int (to_do tr)))
             else (prev (tstate tr) None, []));
          do = (case extra_translations of Some ex \<Rightarrow> do0 @ ex | None \<Rightarrow> do0);
          undo = to_undo tr;
          tr1 = tr\<lparr>to_undo := [], to_do := 0\<rparr>;
          tr2 = (if undo \<noteq> [] \<or> do \<noteq> [] then u_output tr1 undo do prv else tr1)
      in u_resize_translations tr2)"

text \<open>
  \<open>_undo(*translations)\<close>: one round of the loop, and the loop over
  \<open>reversed(translations)\<close>. \<open>pop\<close> on an empty list raises \<open>IndexError\<close>; the assertion
  compares two \<open>Translation\<close> objects as lists, that is, their strokes.
\<close>

definition undo_one :: "translator \<Rightarrow> translation \<Rightarrow> error + translator" where
  "undo_one tr t =
     (let ts = s_translations (tstate tr) in
      if ts = [] then Inl IndexError
      else if strokes t \<noteq> strokes (last ts) then Inl AssertionError
      else (let tr1 = tr\<lparr>tstate := (tstate tr)\<lparr>s_translations := butlast ts\<rparr>\<rparr>
            in if to_do tr1 \<noteq> 0 then Inr (tr1\<lparr>to_do := to_do tr1 - 1\<rparr>)
               else Inr (tr1\<lparr>to_undo := t # to_undo tr1\<rparr>)))"

fun undo_loop :: "translator \<Rightarrow> translation list \<Rightarrow> error + translator" where
  "undo_loop tr [] = Inr tr"
| "undo_loop tr (t # ts) =
     (case undo_one tr t of Inl e \<Rightarrow> Inl e | Inr tr' \<Rightarrow> undo_loop tr' ts)"

definition u_undo :: "translator \<Rightarrow> translation list \<Rightarrow> error + translator" where
  "u_undo tr ts = undo_loop tr (rev ts)"

text \<open>\<open>_do(*translations)\<close>.\<close>

definition u_do :: "translator \<Rightarrow> translation list \<Rightarrow> translator" where
  "u_do tr ts =
     tr\<lparr>tstate := (tstate tr)\<lparr>s_translations := s_translations (tstate tr) @ ts\<rparr>,
        to_do := to_do tr + length ts\<rparr>"

text \<open>\<open>translate_translation\<close> and \<open>untranslate_translation\<close>.\<close>

definition translate_translation :: "translator \<Rightarrow> translation \<Rightarrow> error + translator" where
  "translate_translation tr t =
     (case u_undo tr (replaced t) of Inl e \<Rightarrow> Inl e | Inr tr' \<Rightarrow> Inr (u_do tr' [t]))"

definition untranslate_translation :: "translator \<Rightarrow> translation \<Rightarrow> error + translator" where
  "untranslate_translation tr t =
     (case u_undo tr [t] of Inl e \<Rightarrow> Inl e | Inr tr' \<Rightarrow> Inr (u_do tr' (replaced t)))"

text \<open>
  \<open>_test_and_remove_each\<close>: each test key present in the stroke, paired with the RTFCRE
  form of the stroke without it (\<open>list.remove\<close> takes out the first occurrence).
\<close>

fun u_test_and_remove_each :: "system \<Rightarrow> string list \<Rightarrow> string list \<Rightarrow> (string \<times> string) list" where
  "u_test_and_remove_each sys stroke_keys [] = []"
| "u_test_and_remove_each sys stroke_keys (key # test_keys) =
     (if key \<in> set stroke_keys
      then (key, Stroke_rtfcre sys (remove1 key stroke_keys))
           # u_test_and_remove_each sys stroke_keys test_keys
      else u_test_and_remove_each sys stroke_keys test_keys)"

text \<open>
  \<open>_lookup_affixes\<close>: the loop over \<open>test_pairs\<close>. Every round overwrites the same
  position of \<open>test_seq\<close> (the first for a prefix, the last for a suffix); on an empty
  \<open>test_seq\<close> the assignment raises \<open>IndexError\<close>.
\<close>

fun affixes_loop :: "system \<Rightarrow> collection \<Rightarrow> bool \<Rightarrow> outline \<Rightarrow> (string \<times> string) list
                     \<Rightarrow> error + string option" where
  "affixes_loop sys dct prefix test_seq [] = Inr None"
| "affixes_loop sys dct prefix test_seq ((key, removed) # test_pairs) =
     (if test_seq = [] then Inl IndexError
      else (let test_seq1 = (if prefix then test_seq[0 := removed]
                             else test_seq[length test_seq - 1 := removed])
            in case lookup dct test_seq1 of
                 None \<Rightarrow> affixes_loop sys dct prefix test_seq1 test_pairs
               | Some main_mapping \<Rightarrow>
                   (case lookup dct [Stroke_rtfcre sys [key]] of
                      None \<Rightarrow> affixes_loop sys dct prefix test_seq1 test_pairs
                    | Some affix_mapping \<Rightarrow>
                        if prefix then Inr (Some (affix_mapping @ '' '' @ main_mapping))
                        else Inr (Some (main_mapping @ '' '' @ affix_mapping)))))"

definition u_lookup_affixes :: "system \<Rightarrow> collection \<Rightarrow> outline \<Rightarrow> (string \<times> string) list \<Rightarrow> bool
                                \<Rightarrow> error + string option" where
  "u_lookup_affixes sys dct rtfcre_seq test_pairs prefix =
     affixes_loop sys dct prefix rtfcre_seq test_pairs"

text \<open>
  \<open>_find_translation\<close>. First the loop that counts how many trailing translations can
  take part: its arguments are \<open>stroke_limit\<close>, the translations still to visit (newest
  first), \<open>num_strokes\<close> and \<open>translation_count\<close>.
\<close>

fun count_loop :: "nat \<Rightarrow> translation list \<Rightarrow> nat \<Rightarrow> nat \<Rightarrow> nat" where
  "count_loop stroke_limit [] num_strokes translation_count = translation_count"
| "count_loop stroke_limit (t # ts) num_strokes translation_count =
     (let num_strokes' = num_strokes + t_len t in
      if num_strokes' > stroke_limit then translation_count
      else count_loop stroke_limit ts num_strokes' (translation_count + 1))"

text \<open>
  The three lookup modes, those of \<open>filter(None, (normal, suffixes, prefixes))\<close>, told apart
  in the source by object identity (\<open>mode is normal\<close>, \<open>mode is suffixes\<close>); the model takes
  the suffix and prefix tuples to be two objects.
\<close>

datatype lookup_mode = Normal | Suffixes | Prefixes

definition modes_of :: "bool \<Rightarrow> string list \<Rightarrow> string list \<Rightarrow> lookup_mode list" where
  "modes_of normal suffixes prefixes =
     (if normal then [Normal] else []) @ (if suffixes \<noteq> [] then [Suffixes] else [])
     @ (if prefixes \<noteq> [] then [Prefixes] else [])"

text \<open>
  The lookup of one round of the inner loop, for \<open>mode\<close> at index \<open>i\<close> with the current
  \<open>test_seq\<close>. \<open>translations\<close> are the selected trailing translations.
\<close>

definition mode_lookup :: "system \<Rightarrow> collection \<Rightarrow> string list \<Rightarrow> stroke \<Rightarrow> translation list
                           \<Rightarrow> (string \<times> string) list \<Rightarrow> lookup_mode \<Rightarrow> nat \<Rightarrow> outline
                           \<Rightarrow> error + string option" where
  "mode_lookup sys dct prefixes strk trs last_stroke_mods mode i test_seq =
     (case mode of
        Normal \<Rightarrow> Inr (lookup dct test_seq)
      | Suffixes \<Rightarrow> u_lookup_affixes sys dct test_seq last_stroke_mods False
      | Prefixes \<Rightarrow>
          (if i < length trs \<and> strokes (trs ! i) = [] then Inl IndexError
           else (let test_stroke = (if i < length trs then hd (strokes (trs ! i)) else strk);
                     first_stroke_mods = u_test_and_remove_each sys (steno_keys test_stroke) prefixes
                 in if first_stroke_mods \<noteq> []
                    then u_lookup_affixes sys dct test_seq first_stroke_mods True
                    else Inr None)))"

text \<open>
  The inner loop \<open>for i in range(translation_count+1)\<close>, over the indices still to try;
  \<open>Inr None\<close> means that the loop ended without returning.
\<close>

fun inner_loop :: "system \<Rightarrow> collection \<Rightarrow> string list \<Rightarrow> stroke \<Rightarrow> translation list
                   \<Rightarrow> (string \<times> string) list \<Rightarrow> lookup_mode \<Rightarrow> outline \<Rightarrow> nat list
                   \<Rightarrow> error + translation option" where
  "inner_loop sys dct prefixes strk trs mods mode test_seq [] = Inr None"
| "inner_loop sys dct prefixes strk trs mods mode test_seq (i # is) =
     (case mode_lookup sys dct prefixes strk trs mods mode i test_seq of
        Inl e \<Rightarrow> Inl e
      | Inr (Some mapping) \<Rightarrow>
          (let replaced = drop i trs
           in Inr (Some (Translation (concat (map strokes replaced) @ [strk])
                                     (map rtfcre (concat (map strokes replaced) @ [strk]))
                                     (Some mapping) replaced)))
      | Inr None \<Rightarrow>
          inner_loop sys dct prefixes strk trs mods mode
            (if i < length trs then drop (t_len (trs ! i)) test_seq else test_seq) is)"

text \<open>The outer loop over the modes.\<close>

fun modes_loop :: "system \<Rightarrow> collection \<Rightarrow> string list \<Rightarrow> string list \<Rightarrow> stroke
                   \<Rightarrow> translation list \<Rightarrow> outline \<Rightarrow> lookup_mode list
                   \<Rightarrow> error + translation" where
  "modes_loop sys dct suffixes prefixes strk trs rtfcre_list [] = Inr (mk_translation [strk] None)"
| "modes_loop sys dct suffixes prefixes strk trs rtfcre_list (mode # modes) =
     (let last_stroke_mods = (if mode = Suffixes
                              then u_test_and_remove_each sys (steno_keys strk) suffixes else [])
      in if mode = Suffixes \<and> last_stroke_mods = []
         then modes_loop sys dct suffixes prefixes strk trs rtfcre_list modes
         else (case inner_loop sys dct prefixes strk trs last_stroke_mods mode rtfcre_list
                      [0 ..< length trs + 1] of
                 Inl e \<Rightarrow> Inl e
               | Inr (Some t) \<Rightarrow> Inr t
               | Inr None \<Rightarrow> modes_loop sys dct suffixes prefixes strk trs rtfcre_list modes))"

text \<open>The translations that \<open>_find_translation\<close> selects, and the function.\<close>

definition selected :: "translator \<Rightarrow> translation list" where
  "selected tr =
     (let ts = s_translations (tstate tr);
          translation_count = count_loop (c_longest_key (dictionary tr)) (rev ts) 1 0;
          translation_index = length ts - translation_count
      in drop translation_index ts)"

definition u_find_translation :: "system \<Rightarrow> translator \<Rightarrow> stroke \<Rightarrow> bool \<Rightarrow> string list \<Rightarrow> string list
                                  \<Rightarrow> error + translation" where
  "u_find_translation sys tr strk normal suffixes prefixes =
     (let trs = selected tr;
          rtfcre_list = concat (map t_rtfcre trs) @ [rtfcre strk]
      in modes_loop sys (dictionary tr) suffixes prefixes strk trs rtfcre_list
           (modes_of normal suffixes prefixes))"

text \<open>
  \<open>Translator.lookup(strokes, suffixes=())\<close>. \<open>strokes[-1]\<close> on an empty list raises
  \<open>IndexError\<close>.
\<close>

definition t_lookup :: "system \<Rightarrow> translator \<Rightarrow> stroke list \<Rightarrow> string list \<Rightarrow> error + string option" where
  "t_lookup sys tr strks suffixes =
     (let rtfcre_list = map rtfcre strks in
      case lookup (dictionary tr) rtfcre_list of
        Some result \<Rightarrow> Inr (Some result)
      | None \<Rightarrow>
          if suffixes \<noteq> [] then
            (if strks = [] then Inl IndexError
             else u_lookup_affixes sys (dictionary tr) rtfcre_list
                    (u_test_and_remove_each sys (steno_keys (last strks)) suffixes) False)
          else Inr None)"

section \<open>Macros\<close>

record macro =
  m_name :: string
  m_stroke :: stroke
  m_cmdline :: string

definition LEGACY_MACROS_ALIASES :: "(string \<times> string) list" where
  "LEGACY_MACROS_ALIASES =
     [(''{*}'', ''retrospective_toggle_asterisk''),
      (''{*!}'', ''retrospective_delete_space''),
      (''{*?}'', ''retrospective_insert_space''),
      (''{*+}'', ''repeat_last_stroke'')]"

text \<open>\<open>s.split(':', 1)\<close>: the text before the first colon, and the text after it if any.\<close>

fun split_colon :: "string \<Rightarrow> string \<times> string option" where
  "split_colon [] = ([], None)"
| "split_colon (c # cs) =
     (if c = CHR '':'' then ([], Some cs)
      else (case split_colon cs of (h, r) \<Rightarrow> (c # h, r)))"

text \<open>
  \<open>_mapping_to_macro\<close>. The local \<open>macro\<close> is \<open>None\<close> or a name; the result is a macro
  only if the name is neither \<open>None\<close> nor empty.
\<close>

definition u_mapping_to_macro :: "string option \<Rightarrow> stroke \<Rightarrow> macro option" where
  "u_mapping_to_macro mapping strk =
     (let (mac, cmdline) =
            (case mapping of
               None \<Rightarrow> (if is_correction strk then (Some ''undo'', []) else (None, []))
             | Some m \<Rightarrow>
                 (case map_of LEGACY_MACROS_ALIASES m of
                    Some alias \<Rightarrow> (Some alias, [])
                  | None \<Rightarrow>
                      if take 1 m = ''='' \<and> length m > 1 then
                        (case split_colon (drop 1 m) of
                           (a0, Some a1) \<Rightarrow> (Some a0, a1)
                         | (a0, None) \<Rightarrow> (Some a0, []))
                      else (None, [])))
      in case mac of
           None \<Rightarrow> None
         | Some n \<Rightarrow> if n \<noteq> [] then Some \<lparr>m_name = n, m_stroke = strk, m_cmdline = cmdline\<rparr>
                     else None)"

text \<open>
  The macro plugins are found through the registry, an external collaborator:
  \<open>registry.get_plugin('macro', name).obj\<close> is a function of the translator, the stroke
  and the command line, and an unknown name raises \<open>KeyError\<close>. The registry is a
  parameter of the model.
\<close>

type_synonym macro_fn = "translator \<Rightarrow> stroke \<Rightarrow> string \<Rightarrow> error + translator"

type_synonym registry = "string \<rightharpoonup> macro_fn"

definition translate_macro :: "registry \<Rightarrow> translator \<Rightarrow> macro \<Rightarrow> error + translator" where
  "translate_macro reg tr mac =
     (case reg (m_name mac) of
        None \<Rightarrow> Inl KeyError
      | Some macro_fn \<Rightarrow> macro_fn tr (m_stroke mac) (m_cmdline mac))"

text \<open>\<open>translate_stroke\<close> and \<open>translate\<close>.\<close>

definition translate_stroke :: "system \<Rightarrow> registry \<Rightarrow> translator \<Rightarrow> stroke \<Rightarrow> error + translator" where
  "translate_stroke sys reg tr strk =
     (case t_lookup sys tr [strk] [] of
        Inl e \<Rightarrow> Inl e
      | Inr mapping \<Rightarrow>
          (case u_mapping_to_macro mapping strk of
             Some mac \<Rightarrow> translate_macro reg tr mac
           | None \<Rightarrow>
               (case u_find_translation sys tr strk True (SUFFIX_KEYS sys) (PREFIX_KEYS sys) of
                  Inl e \<Rightarrow> Inl e
                | Inr t \<Rightarrow> translate_translation tr t)))"

definition translate :: "system \<Rightarrow> registry \<Rightarrow> translator \<Rightarrow> stroke \<Rightarrow> error + translator" where
  "translate sys reg tr strk =
     (case translate_stroke sys reg tr strk of
        Inl e \<Rightarrow> Inl e
      | Inr tr' \<Rightarrow> Inr (flush tr' None))"

section \<open>The reverse index agrees with the forward map\<close>

text \<open>
  The data invariant of a dictionary: under every translation the reverse index lists
  exactly the keys that the forward map sends to it.
\<close>

definition rev_consistent :: "steno_dictionary \<Rightarrow> bool" where
  "rev_consistent d = (\<forall>v. set (reverse_lookup d v) = {k. getitem d k = Some v})"

section \<open>Example data\<close>

text \<open>Strokes, translations and dictionaries of the scenarios of the specification.\<close>

definition mk_stroke :: "string \<Rightarrow> stroke" where
  "mk_stroke r = \<lparr>rtfcre = r, steno_keys = map (\<lambda>c. [c]) r, is_correction = False\<rparr>"

definition T_cat :: translation where
  "T_cat = mk_translation [mk_stroke ''KAT''] (Some ''cat'')"

definition T_hello :: translation where
  "T_hello = mk_translation [mk_stroke ''HEL''] (Some ''hello'')"

definition S_two :: translator_state where
  "S_two = \<lparr>s_translations = [T_cat, T_hello], tail = None\<rparr>"

text \<open>A read-only dictionary with one entry, as \<open>load\<close> leaves it for a file that is not writable.\<close>

definition D_ro :: steno_dictionary where
  "D_ro = \<lparr>entries = [([''A''], ''a'')], reverse = [''a'' \<mapsto> [[''A'']]],
            longest_key_length = 1, lk_calls = [], readonly = True, enabled = True\<rparr>"


text \<open>The two dictionaries of scenario 5, and their collection.\<close>

definition D_high :: steno_dictionary where
  "D_high = \<lparr>entries = [([''A''], ''hi'')], reverse = [''hi'' \<mapsto> [[''A'']]],
              longest_key_length = 1, lk_calls = [], readonly = False, enabled = True\<rparr>"

definition D_low :: steno_dictionary where
  "D_low = \<lparr>entries = [([''A''], ''hello''), ([''B''], ''hello'')],
             reverse = [''hello'' \<mapsto> [[''A''], [''B'']]],
             longest_key_length = 1, lk_calls = [], readonly = False, enabled = True\<rparr>"

definition C_five :: collection where
  "C_five = new_collection [D_high, D_low]"

text \<open>
  The system of scenario 6: one rule, which doubles the final consonant of \<open>run\<close> before
  \<open>ing\<close>, and a wordlist that ranks \<open>running\<close> before \<open>runing\<close>.
\<close>

definition SYS_six :: system where
  "SYS_six = \<lparr>ORTHOGRAPHY_RULES = [\<lambda>inp. if inp = ''run ^ ing'' then Some ''running'' else None],
               ORTHOGRAPHY_RULES_ALIASES = Map.empty,
               ORTHOGRAPHY_WORDS = [''running'' \<mapsto> 3, ''runing'' \<mapsto> 5],
               SUFFIX_KEYS = [], PREFIX_KEYS = [], Stroke_rtfcre = concat\<rparr>"


section \<open>Properties of the translator state\<close>

lemma restrict_loop_bounds:
  "tc \<le> restrict_loop n ts sc tc \<and> restrict_loop n ts sc tc \<le> tc + length ts"
proof (induction n ts sc tc rule: restrict_loop.induct)
  case (1 n sc tc)
  show ?case by simp
next
  case (2 n t ts sc tc)
  show ?case
  proof (cases "sc + int (t_len t) \<ge> n")
    case True
    then show ?thesis by (simp add: Let_def)
  next
    case False
    with "2.IH" [OF refl refl] show ?thesis by (simp add: Let_def)
  qed
qed

lemma restrict_loop_pos: "ts \<noteq> [] \<Longrightarrow> tc < restrict_loop n ts sc tc"
proof (cases ts)
  case Nil
  assume "ts \<noteq> []"
  with Nil show ?thesis by simp
next
  case (Cons t ts')
  have "tc + 1 \<le> restrict_loop n ts' (sc + int (t_len t)) (tc + 1)"
    using restrict_loop_bounds by blast
  with Cons show ?thesis by (simp add: Let_def)
qed

text \<open>
  C10. On a non-empty history, \<open>restrict_size(n)\<close> (any integer \<open>n\<close>, so every
  \<open>n \<ge> 0\<close>) keeps a non-empty suffix of the history, hence its newest record; the tail
  differs from the old one only if at least one record was dropped, and then it is the
  newest dropped record; a present tail never becomes absent.
\<close>

theorem restrict_size_keeps_newest:
  assumes "s_translations s \<noteq> []"
  shows "s_translations (restrict_size n s) \<noteq> []
       \<and> last (s_translations (restrict_size n s)) = last (s_translations s)
       \<and> (\<exists>k < length (s_translations s).
             s_translations (restrict_size n s) = drop k (s_translations s)
           \<and> (k = 0 \<longrightarrow> tail (restrict_size n s) = tail s)
           \<and> (k \<noteq> 0 \<longrightarrow> tail (restrict_size n s) = Some (s_translations s ! (k - 1))))
       \<and> (tail (restrict_size n s) \<noteq> tail s \<longrightarrow>
             length (s_translations (restrict_size n s)) < length (s_translations s))
       \<and> (tail s \<noteq> None \<longrightarrow> tail (restrict_size n s) \<noteq> None)"
proof -
  define c where "c = restrict_loop n (rev (s_translations s)) 0 0"
  define k where "k = length (s_translations s) - c"
  have cpos: "0 < c"
    using restrict_loop_pos [of "rev (s_translations s)" 0 n 0] assms by (simp add: c_def)
  have cle: "c \<le> length (s_translations s)"
    using restrict_loop_bounds [of 0 n "rev (s_translations s)" 0] by (simp add: c_def)
  have klt: "k < length (s_translations s)"
    using cpos cle assms by (simp add: k_def)
  have tr: "s_translations (restrict_size n s) = drop k (s_translations s)"
    by (simp add: restrict_size_def Let_def c_def k_def)
  have tl: "tail (restrict_size n s) = (if k \<noteq> 0 then Some (s_translations s ! (k - 1)) else tail s)"
    by (simp add: restrict_size_def Let_def c_def k_def)
  have ne: "s_translations (restrict_size n s) \<noteq> []"
    using klt by (simp add: tr)
  have la: "last (s_translations (restrict_size n s)) = last (s_translations s)"
    using klt by (simp add: tr)
  have ex: "\<exists>k < length (s_translations s).
             s_translations (restrict_size n s) = drop k (s_translations s)
           \<and> (k = 0 \<longrightarrow> tail (restrict_size n s) = tail s)
           \<and> (k \<noteq> 0 \<longrightarrow> tail (restrict_size n s) = Some (s_translations s ! (k - 1)))"
    using klt tr tl by (intro exI [of _ k]) simp
  have ch: "tail (restrict_size n s) \<noteq> tail s \<longrightarrow>
             length (s_translations (restrict_size n s)) < length (s_translations s)"
    using klt by (auto simp: tr tl split: if_splits)
  have pr: "tail s \<noteq> None \<longrightarrow> tail (restrict_size n s) \<noteq> None"
    by (simp add: tl)
  from ne la ex ch pr show ?thesis by blast
qed

theorem restrict_size_keeps_newest_witness:
  "s_translations S_two \<noteq> []
   \<and> s_translations (restrict_size 1 S_two) \<noteq> []
   \<and> last (s_translations (restrict_size 1 S_two)) = T_hello"
proof -
  have ne: "s_translations S_two \<noteq> []" by (simp add: S_two_def)
  have la: "last (s_translations S_two) = T_hello" by (simp add: S_two_def)
  from restrict_size_keeps_newest [OF ne, of 1] ne la show ?thesis by simp
qed


text \<open>
  C4 as stated fails at \<open>count = 0\<close>: \<open>translations[:-0]\<close> is \<open>translations[:0]\<close>, the empty
  list, so \<open>prev(0)\<close> on a history of two records with no tail is absent, not the history.
\<close>

theorem prev_zero_counterexample:
  "prev S_two (Some 0) = None \<and> prev S_two (Some 0) \<noteq> Some (s_translations S_two)"
  by (simp add: prev_def prev_view_def slice_to_def S_two_def)

text \<open>
  C4, amended. With \<open>count\<close> absent the view is the whole list; for \<open>count \<ge> 1\<close> it is the
  list without its last \<open>count\<close> elements; for \<open>count = 0\<close> it is empty. \<open>prev\<close> returns
  the view if it is not empty, else \<open>[tail]\<close> if the tail is present, else absent.
\<close>

theorem prev_views:
  "prev_view s None = s_translations s
   \<and> (0 < c \<longrightarrow> prev_view s (Some c)
                   = take (length (s_translations s) - nat c) (s_translations s))
   \<and> prev_view s (Some 0) = []
   \<and> prev s count = (if prev_view s count \<noteq> [] then Some (prev_view s count)
                      else if tail s \<noteq> None then Some [the (tail s)] else None)"
proof -
  have a: "prev_view s None = s_translations s"
    by (simp add: prev_view_def)
  have b: "0 < c \<longrightarrow> prev_view s (Some c)
                   = take (length (s_translations s) - nat c) (s_translations s)"
  proof
    assume "0 < c"
    then have "nat (int (length (s_translations s)) - c) = length (s_translations s) - nat c"
      by simp
    with \<open>0 < c\<close> show "prev_view s (Some c)
                   = take (length (s_translations s) - nat c) (s_translations s)"
      by (simp add: prev_view_def slice_to_def)
  qed
  have c: "prev_view s (Some 0) = []"
    by (simp add: prev_view_def slice_to_def)
  have d: "prev s count = (if prev_view s count \<noteq> [] then Some (prev_view s count)
                      else if tail s \<noteq> None then Some [the (tail s)] else None)"
    by (cases "tail s") (simp_all add: prev_def Let_def)
  from a b c d show ?thesis by blast
qed

theorem prev_views_witness:
  "(0::int) < 1 \<and> prev_view S_two (Some 1) = [T_cat] \<and> prev S_two (Some 1) = Some [T_cat]
   \<and> prev S_two None = Some [T_cat, T_hello]"
proof -
  have v: "prev_view S_two (Some 1) = [T_cat]"
    using prev_views [of S_two 1 "Some 1"] by (simp add: S_two_def)
  have p: "prev S_two (Some 1) = Some [T_cat]"
    using prev_views [of S_two 1 "Some 1"] v by simp
  have q: "prev S_two None = Some [T_cat, T_hello]"
    using prev_views [of S_two 1 None] by (simp add: S_two_def)
  from v p q show ?thesis by simp
qed


section \<open>Properties of single dictionaries\<close>

text \<open>
  \<open>__setitem__\<close>, \<open>__delitem__\<close> and \<open>update\<close> assert that the dictionary is not read-only
  before they touch it.
\<close>

lemma readonly_guarded_mutators:
  assumes "readonly d"
  shows "setitem d k v = Inl AssertionError" and "delitem d k = Inl AssertionError"
    and "update d kvs = Inl AssertionError"
  using assms by (simp_all add: setitem_def delitem_def update_def)

text \<open>
  C9 fails for \<open>clear\<close>, which has no such assertion: on the read-only dictionary \<open>D_ro\<close>
  it returns normally, with both maps emptied, \<open>longest_key\<close> reset to 0 and the
  longest-key callbacks called with 0.
\<close>

theorem clear_readonly_mutates:
  "readonly D_ro
   \<and> clear D_ro = Inr \<lparr>entries = [], reverse = Map.empty, longest_key_length = 0,
                        lk_calls = [0], readonly = True, enabled = True\<rparr>"
  by (simp add: clear_def set_longest_key_def D_ro_def)


section \<open>Properties of dictionary collections\<close>





lemma reverse_step_keys:
  assumes "rev_consistent d"
  shows "reverse_step v d {k. raw_lookup_in ds k = Some v}
         = {k. raw_lookup_in (d # ds) k = Some v}"
proof (cases "enabled d")
  case False
  then show ?thesis by (simp add: reverse_step_def)
next
  case True
  have own: "set (reverse_lookup d v) = {k. getitem d k = Some v}"
    using assms by (simp add: rev_consistent_def)
  have hit: "getitem d k = Some v \<Longrightarrow> contains d k" for k
    by (simp add: contains_def getitem_def)
  show ?thesis
    using True own hit by (auto simp: reverse_step_def Let_def)
qed

lemma reverse_fold_keys:
  assumes "\<forall>d \<in> set ds. rev_consistent d"
  shows "fold (reverse_step v) (rev ds) {} = {k. raw_lookup_in ds k = Some v}"
  using assms
proof (induction ds)
  case Nil
  show ?case by simp
next
  case (Cons d ds)
  then have "fold (reverse_step v) (rev ds) {} = {k. raw_lookup_in ds k = Some v}"
    by simp
  moreover have "rev_consistent d" using Cons.prems by simp
  ultimately show ?case
    using reverse_step_keys [of d v ds] by simp
qed

text \<open>
  C1. In a collection whose children all have a reverse index that agrees with their
  forward map, \<open>reverse_lookup(text)\<close> is exactly the set of keys \<open>k\<close> with
  \<open>raw_lookup(k) == text\<close>.
\<close>

theorem c_reverse_lookup_exact:
  assumes "\<forall>d \<in> set (dicts c). rev_consistent d"
  shows "c_reverse_lookup c v = {k. raw_lookup c k = Some v}"
  using reverse_fold_keys [OF assms] by (simp add: c_reverse_lookup_def raw_lookup_def)

lemma rev_consistent_D_high: "rev_consistent D_high"
  by (auto simp: rev_consistent_def reverse_lookup_def getitem_def D_high_def split: if_splits)

lemma rev_consistent_D_low: "rev_consistent D_low"
  by (auto simp: rev_consistent_def reverse_lookup_def getitem_def D_low_def split: if_splits)

lemma dicts_C_five: "dicts C_five = [D_high, D_low]"
  by (simp add: C_five_def new_collection_def set_dicts_def longest_key_listener_def Let_def)

theorem c_reverse_lookup_exact_witness:
  "rev_consistent D_high \<and> rev_consistent D_low
   \<and> c_reverse_lookup C_five ''hello'' = {[''B'']}
   \<and> {k. raw_lookup C_five k = Some ''hello''} = {[''B'']}"
proof -
  have h: "\<forall>d \<in> set (dicts C_five). rev_consistent d"
    by (simp add: dicts_C_five rev_consistent_D_high rev_consistent_D_low)
  have r: "c_reverse_lookup C_five ''hello'' = {[''B'']}"
    by (simp add: c_reverse_lookup_def dicts_C_five reverse_step_def reverse_lookup_def
          contains_def D_high_def D_low_def Let_def)
  from c_reverse_lookup_exact [OF h, of "''hello''"] r
  show ?thesis by (simp add: rev_consistent_D_high rev_consistent_D_low)
qed


section \<open>Properties of the orthography joiner\<close>

lemma partition_space_parts:
  "partition_space s = (h, sep, r) \<Longrightarrow>
     s = h @ sep @ r \<and> CHR '' '' \<notin> set h \<and> (sep = '' '' \<or> (sep = [] \<and> r = []))"
proof (induction s arbitrary: h sep r)
  case Nil
  then show ?case by simp
next
  case (Cons c s)
  show ?case
  proof (cases "c = CHR '' ''")
    case True
    with Cons.prems show ?thesis by auto
  next
    case False
    obtain h' sep' r' where p: "partition_space s = (h', sep', r')"
      by (cases "partition_space s") auto
    from Cons.IH [OF p] Cons.prems False p show ?thesis by auto
  qed
qed

lemma min_loop_first_least:
  "\<exists>pre post. b # xs = pre @ min_loop f b xs # post
     \<and> (\<forall>y \<in> set pre. f (min_loop f b xs) < f y)
     \<and> (\<forall>y \<in> set post. f (min_loop f b xs) \<le> f y)"
proof (induction xs arbitrary: b)
  case Nil
  have "[b] = [] @ b # [] \<and> (\<forall>y \<in> set []. f b < f y) \<and> (\<forall>y \<in> set []. f b \<le> f y)"
    by simp
  then have "\<exists>pre post. [b] = pre @ b # post
     \<and> (\<forall>y \<in> set pre. f b < f y) \<and> (\<forall>y \<in> set post. f b \<le> f y)"
    by blast
  then show ?case by simp
next
  case (Cons x xs)
  define b' where "b' = (if f x < f b then x else b)"
  define r where "r = min_loop f b' xs"
  have step: "min_loop f b (x # xs) = r"
    by (simp add: r_def b'_def)
  from Cons.IH [of b'] obtain pre post where
    d: "b' # xs = pre @ r # post" and
    l: "\<forall>y \<in> set pre. f r < f y" and g: "\<forall>y \<in> set post. f r \<le> f y"
    unfolding r_def by blast
  have goal: "\<exists>pre post. b # x # xs = pre @ r # post
     \<and> (\<forall>y \<in> set pre. f r < f y) \<and> (\<forall>y \<in> set post. f r \<le> f y)"
  proof (cases "f x < f b")
    case True
    then have bx: "b' = x" by (simp add: b'_def)
    have "x \<in> set (pre @ r # post)" using d bx by (metis list.set_intros(1))
    then have "f r \<le> f x" using l g by auto
    with True have rb: "f r < f b" by simp
    have e: "b # x # xs = (b # pre) @ r # post" using d bx by simp
    have l': "\<forall>y \<in> set (b # pre). f r < f y" using l rb by simp
    from e l' g show ?thesis by blast
  next
    case False
    then have bb: "b' = b" by (simp add: b'_def)
    show ?thesis
    proof (cases pre)
      case Nil
      with d bb have rb: "r = b" and px: "post = xs" by simp_all
      have e: "b # x # xs = [] @ r # (x # xs)" using rb by simp
      have g': "\<forall>y \<in> set (x # xs). f r \<le> f y" using g px rb False by auto
      have l': "\<forall>y \<in> set []. f r < f y" by simp
      from e l' g' show ?thesis by blast
    next
      case (Cons p ps)
      with d bb have pb: "p = b" and xs: "xs = ps @ r # post" by simp_all
      have "f r < f b" using l Cons pb by simp
      with False have rx: "f r < f x" by simp
      have e: "b # x # xs = (b # x # ps) @ r # post" by (simp add: xs)
      have l': "\<forall>y \<in> set (b # x # ps). f r < f y" using l Cons pb rx by simp
      from e l' g show ?thesis by blast
    qed
  qed
  then show ?case unfolding step .
qed


lemma dict_candidates_in_words:
  "w \<in> set (filter (in_dict_f sys) cs) \<Longrightarrow> \<exists>r. ORTHOGRAPHY_WORDS sys w = Some r"
  by (auto simp: in_dict_f_def)

text \<open>
  C5. \<open>add_suffix\<close> splits the suffix at its first space, joins the first token and puts
  the separator and the rest back unchanged. The joined form is \<open>word + token\<close> when there
  is no candidate; the first candidate when none is in the wordlist; otherwise the
  candidate in the wordlist that has the smallest rank, the first of them among equals:
  every wordlist candidate before it has a larger rank, every one after it a rank at
  least as large.
\<close>

theorem add_suffix_selection:
  "\<exists>tok sep rest.
     suffix = tok @ sep @ rest \<and> CHR '' '' \<notin> set tok \<and> (sep = '' '' \<or> (sep = [] \<and> rest = []))
     \<and> add_suffix sys word suffix = u_add_suffix sys word tok @ sep @ rest
     \<and> (candidates_of sys word tok = [] \<longrightarrow> u_add_suffix sys word tok = word @ tok)
     \<and> (candidates_of sys word tok \<noteq> []
          \<and> filter (in_dict_f sys) (candidates_of sys word tok) = []
          \<longrightarrow> u_add_suffix sys word tok = hd (candidates_of sys word tok))
     \<and> (filter (in_dict_f sys) (candidates_of sys word tok) \<noteq> [] \<longrightarrow>
          (\<exists>pre post.
             filter (in_dict_f sys) (candidates_of sys word tok)
               = pre @ u_add_suffix sys word tok # post
           \<and> (\<forall>y \<in> set pre. the (ORTHOGRAPHY_WORDS sys (u_add_suffix sys word tok))
                               < the (ORTHOGRAPHY_WORDS sys y))
           \<and> (\<forall>y \<in> set post. the (ORTHOGRAPHY_WORDS sys (u_add_suffix sys word tok))
                               \<le> the (ORTHOGRAPHY_WORDS sys y))))"
proof -
  obtain tok sep rest where p: "partition_space suffix = (tok, sep, rest)"
    by (cases "partition_space suffix") auto
  let ?cs = "candidates_of sys word tok"
  let ?dc = "filter (in_dict_f sys) ?cs"
  let ?rank = "\<lambda>w. the (ORTHOGRAPHY_WORDS sys w)"
  have parts: "suffix = tok @ sep @ rest \<and> CHR '' '' \<notin> set tok
               \<and> (sep = '' '' \<or> (sep = [] \<and> rest = []))"
    using partition_space_parts [OF p] .
  have join: "add_suffix sys word suffix = u_add_suffix sys word tok @ sep @ rest"
    by (simp add: add_suffix_def p)
  have none: "?cs = [] \<longrightarrow> u_add_suffix sys word tok = word @ tok"
    by (simp add: u_add_suffix_def Let_def)
  have first: "?cs \<noteq> [] \<and> ?dc = [] \<longrightarrow> u_add_suffix sys word tok = hd ?cs"
    by (simp add: u_add_suffix_def Let_def)
  have best: "?dc \<noteq> [] \<longrightarrow>
          (\<exists>pre post. ?dc = pre @ u_add_suffix sys word tok # post
           \<and> (\<forall>y \<in> set pre. ?rank (u_add_suffix sys word tok) < ?rank y)
           \<and> (\<forall>y \<in> set post. ?rank (u_add_suffix sys word tok) \<le> ?rank y))"
  proof
    assume ne: "?dc \<noteq> []"
    then have cne: "?cs \<noteq> []" by auto
    have r: "u_add_suffix sys word tok = min_loop ?rank (hd ?dc) (tl ?dc)"
      using ne cne by (simp add: u_add_suffix_def Let_def)
    have "hd ?dc # tl ?dc = ?dc" using ne by simp
    with min_loop_first_least [of "hd ?dc" "tl ?dc" ?rank] r
    show "\<exists>pre post. ?dc = pre @ u_add_suffix sys word tok # post
           \<and> (\<forall>y \<in> set pre. ?rank (u_add_suffix sys word tok) < ?rank y)
           \<and> (\<forall>y \<in> set post. ?rank (u_add_suffix sys word tok) \<le> ?rank y)"
      by simp
  qed
  from parts join none first best show ?thesis by blast
qed


lemma candidates_six: "candidates_of SYS_six ''run'' ''ing'' = [''runing'', ''running'']"
  by (simp add: candidates_of_def u_add_candidates_from_rules_def in_dict_f_def SYS_six_def Let_def)

theorem add_suffix_selection_witness:
  "filter (in_dict_f SYS_six) (candidates_of SYS_six ''run'' ''ing'') = [''runing'', ''running'']
   \<and> add_suffix SYS_six ''run'' ''ing'' = ''running''
   \<and> add_suffix SYS_six ''run'' ''ing more'' = ''running more''"
proof -
  have f: "filter (in_dict_f SYS_six) (candidates_of SYS_six ''run'' ''ing'') = [''runing'', ''running'']"
    by (simp add: candidates_six) (simp add: in_dict_f_def SYS_six_def)
  have u: "u_add_suffix SYS_six ''run'' ''ing'' = ''running''"
    by (simp add: u_add_suffix_def candidates_of_def u_add_candidates_from_rules_def
          in_dict_f_def SYS_six_def Let_def)
  have a: "add_suffix SYS_six ''run'' ''ing'' = ''running''"
    using u by (simp add: add_suffix_def)
  have b: "add_suffix SYS_six ''run'' ''ing more'' = ''running more''"
    using u by (simp add: add_suffix_def)
  from add_suffix_selection [of "''ing''" SYS_six "''run''"] f a b show ?thesis by simp
qed







end
